theory Spec2Isabelle
  imports Main
begin

text \<open>
  A shallow embedding of the notification and round-protocol code of the Thali Cordova
  plugin: the \<^verbatim>\<open>QuitSignal\<close> and the round protocol of testThaliMobileNative.js, the
  \<^verbatim>\<open>start\<close> operation of thaliNotificationServer.js, and the Swift \<^verbatim>\<open>PeerIdentifier\<close>.
  Objects are records passed along and returned; what a function does to the outside
  (timers, sockets, promises, the transport) is returned as a list of calls; a thrown
  error is the left summand of the result.
\<close>

section \<open>QuitSignal (testThaliMobileNative.js)\<close>

text \<open>
  JavaScript values that reach the signal. A timer handle is whatever \<^verbatim>\<open>setTimeout\<close>
  returned; \<open>StructRef i\<close> is the object created by the literal
  \<^verbatim>\<open>{ timeOut: timeOut, successCb: successCb }\<close> inside \<^verbatim>\<open>addTimeout\<close>. An object literal
  makes a new object, so a \<open>StructRef\<close> is never identical (\<^verbatim>\<open>===\<close>) to a value that
  existed before the call. Functions are known by their identity only.
\<close>

datatype jsval = JNull | JUndefined | TimerHandle nat | StructRef nat

type_synonym callback = nat

record timeOutStruct =
  ref :: nat
  timeOut :: jsval
  successCb :: callback

text \<open>
  \<^verbatim>\<open>this.timeOuts\<close> is an array; \<^verbatim>\<open>delete\<close> leaves a hole, written \<open>None\<close>, and does not
  change the length.
\<close>

record QuitSignal =
  raised :: bool
  timeOuts :: "timeOutStruct option list"
  cancelCalls :: "callback list"

datatype error = AssertionError string

text \<open>What a call of \<^verbatim>\<open>raiseSignal\<close> does to the world outside the signal.\<close>

datatype effect =
    ClearTimeout jsval
  | InvokeSuccessCb callback jsval jsval
  | InvokeCancelCall callback

definition new_QuitSignal :: QuitSignal where
  "new_QuitSignal = \<lparr>raised = False, timeOuts = [], cancelCalls = []\<rparr>"

text \<open>\<^verbatim>\<open>assert(!this.raised, msg)\<close> throws before the push.\<close>

definition addCancelCall :: "QuitSignal \<Rightarrow> callback \<Rightarrow> error + QuitSignal" where
  "addCancelCall qs cancelCall =
     (if raised qs then Inl (AssertionError ''No calling addCancelCall after signal is raised'')
      else Inr (qs\<lparr>cancelCalls := cancelCalls qs @ [cancelCall]\<rparr>))"

definition addTimeout :: "QuitSignal \<Rightarrow> jsval \<Rightarrow> callback \<Rightarrow> error + QuitSignal" where
  "addTimeout qs t cb =
     (if raised qs then Inl (AssertionError ''No calling addTimeout after signal is raised'')
      else Inr (qs\<lparr>timeOuts := timeOuts qs @
             [Some \<lparr>ref = length (timeOuts qs), timeOut = t, successCb = cb\<rparr>]\<rparr>))"

text \<open>\<^verbatim>\<open>Object.keys\<close> of an array: the indices that are not holes, ascending.\<close>

definition object_keys :: "'a option list \<Rightarrow> nat list" where
  "object_keys xs = filter (\<lambda>i. xs ! i \<noteq> None) [0..<length xs]"

text \<open>\<^verbatim>\<open>this.timeOuts[k]\<close> as a value: the stored object, or undefined.\<close>

definition array_get :: "timeOutStruct option list \<Rightarrow> nat \<Rightarrow> jsval" where
  "array_get ts k =
     (if k < length ts then (case ts ! k of None \<Rightarrow> JUndefined | Some s \<Rightarrow> StructRef (ref s))
      else JUndefined)"

fun removeTimeout_loop ::
  "nat list \<Rightarrow> jsval \<Rightarrow> timeOutStruct option list \<Rightarrow> timeOutStruct option list" where
  "removeTimeout_loop [] t ts = ts"
| "removeTimeout_loop (k # ks) t ts =
     removeTimeout_loop ks t (if array_get ts k = t then ts[k := None] else ts)"

definition removeTimeout :: "QuitSignal \<Rightarrow> jsval \<Rightarrow> error + QuitSignal" where
  "removeTimeout qs t =
     (if raised qs then Inl (AssertionError ''No calling removeTimeout after signal is raised'')
      else Inr (qs\<lparr>timeOuts := removeTimeout_loop (object_keys (timeOuts qs)) t (timeOuts qs)\<rparr>))"

text \<open>\<^verbatim>\<open>forEach\<close> skips holes and visits the elements by ascending index.\<close>

fun forEach_timeOuts :: "timeOutStruct option list \<Rightarrow> effect list" where
  "forEach_timeOuts [] = []"
| "forEach_timeOuts (None # ts) = forEach_timeOuts ts"
| "forEach_timeOuts (Some s # ts) =
     ClearTimeout (timeOut s) # InvokeSuccessCb (successCb s) JNull JNull # forEach_timeOuts ts"

definition raiseSignal :: "QuitSignal \<Rightarrow> QuitSignal \<times> effect list" where
  "raiseSignal qs =
     (if raised qs then (qs, [])
      else (qs\<lparr>raised := True\<rparr>,
            forEach_timeOuts (timeOuts qs) @ map InvokeCancelCall (cancelCalls qs)))"

text \<open>
  A client of the signal is a sequence of method calls. A call that throws leaves the
  object as it was; the effects of the calls are collected in order.
\<close>

datatype call =
    AddCancelCall callback
  | AddTimeout jsval callback
  | RemoveTimeout jsval
  | RaiseSignal

definition keep :: "QuitSignal \<Rightarrow> error + QuitSignal \<Rightarrow> QuitSignal \<times> effect list" where
  "keep qs r = (case r of Inl e \<Rightarrow> (qs, []) | Inr qs' \<Rightarrow> (qs', []))"

fun perform :: "QuitSignal \<Rightarrow> call \<Rightarrow> QuitSignal \<times> effect list" where
  "perform qs (AddCancelCall c) = keep qs (addCancelCall qs c)"
| "perform qs (AddTimeout t cb) = keep qs (addTimeout qs t cb)"
| "perform qs (RemoveTimeout t) = keep qs (removeTimeout qs t)"
| "perform qs RaiseSignal = raiseSignal qs"

fun perform_all :: "QuitSignal \<Rightarrow> call list \<Rightarrow> QuitSignal \<times> effect list" where
  "perform_all qs [] = (qs, [])"
| "perform_all qs (c # cs) =
     (let (qs1, es1) = perform qs c; (qs2, es2) = perform_all qs1 cs in (qs2, es1 @ es2))"

text \<open>The registrations a raise will fire: the stored structures that are not holes.\<close>

definition registered :: "QuitSignal \<Rightarrow> timeOutStruct list" where
  "registered qs = List.map_filter id (timeOuts qs)"

section \<open>Round protocol (testThaliMobileNative.js)\<close>

text \<open>
  A Buffer is its list of bytes and a byte is a \<open>char\<close>. The uuid and the one-character
  codes are ASCII, for which \<^verbatim>\<open>new Buffer(str)\<close> and \<^verbatim>\<open>buf.toString()\<close> keep the bytes
  as they are.
\<close>

type_synonym buffer = string

text \<open>\<^verbatim>\<open>Buffer.compare\<close>: bytewise, unsigned; a proper prefix is smaller.\<close>

fun Buffer_compare :: "buffer \<Rightarrow> buffer \<Rightarrow> int" where
  "Buffer_compare [] [] = 0"
| "Buffer_compare [] (y # ys) = - 1"
| "Buffer_compare (x # xs) [] = 1"
| "Buffer_compare (x # xs) (y # ys) =
     (if (of_char x :: nat) < of_char y then - 1
      else if (of_char y :: nat) < of_char x then 1
      else Buffer_compare xs ys)"

text \<open>\<^verbatim>\<open>var bulkMessage = new Buffer(100000); bulkMessage.fill(1);\<close>\<close>

definition bulkMessage :: buffer where
  "bulkMessage = replicate 100000 (char_of (1 :: nat))"

text \<open>
  The digits of a number in a radix, most significant first, lower case: what
  \<^verbatim>\<open>Number.prototype.toString\<close> (radix 10) and Swift's \<^verbatim>\<open>String(n, radix: r)\<close> write for
  a non-negative integer.
\<close>

definition digit_char :: "nat \<Rightarrow> char" where
  "digit_char d = (if d < 10 then char_of (48 + d) else char_of (87 + d))"

function digits_radix :: "nat \<Rightarrow> nat \<Rightarrow> string" where
  "digits_radix r n =
     (if r < 2 \<or> n < r then [digit_char n]
      else digits_radix r (n div r) @ [digit_char (n mod r)])"
  by pat_completeness auto
termination
  by (relation "measure snd") auto

declare digits_radix.simps [simp del]

text \<open>The round number is a small non-negative integer (0 and 1 in the test).\<close>

definition toString :: "nat \<Rightarrow> string" where
  "toString n = digits_radix 10 n"

record message =
  uuid :: string
  code :: string
  bulkData :: buffer

record participant =
  participant_uuid :: string

text \<open>The test object \<^verbatim>\<open>t\<close>, of which the protocol reads \<^verbatim>\<open>t.participants\<close>.\<close>

record tape_test =
  participants :: "participant list"




definition WRONG_GEN :: string where "WRONG_GEN = ''0''"
definition WRONG_TEST :: string where "WRONG_TEST = ''1''"
definition SUCCESS :: string where "SUCCESS = ''2''"
definition WRONG_ME :: string where "WRONG_ME = ''3''"
definition WRONG_SYNTAX :: string where "WRONG_SYNTAX = ''4''"


fun peerInTestList_loop :: "participant list \<Rightarrow> string \<Rightarrow> bool" where
  "peerInTestList_loop [] u = False"
| "peerInTestList_loop (p # ps) u =
     (if participant_uuid p = u then True else peerInTestList_loop ps u)"

definition peerInTestList :: "tape_test \<Rightarrow> string \<Rightarrow> bool" where
  "peerInTestList t u = peerInTestList_loop (participants t) u"

definition FATAL :: string where "FATAL = ''fatal''"
definition NON_FATAL :: string where "NON_FATAL = ''non-fatal''"
definition OK :: string where "OK = ''ok''"

definition validateServerResponse :: "tape_test \<Rightarrow> message \<Rightarrow> string" where
  "validateServerResponse t serverResponse =
     (if \<not> peerInTestList t (uuid serverResponse) then NON_FATAL
      else if Buffer_compare bulkMessage (bulkData serverResponse) \<noteq> 0 then FATAL
      else if code serverResponse = WRONG_ME then NON_FATAL
      else if code serverResponse = WRONG_GEN then NON_FATAL
      else if code serverResponse = WRONG_TEST then FATAL
      else if code serverResponse = WRONG_SYNTAX then FATAL
      else if code serverResponse = SUCCESS then OK
      else FATAL)"

definition validateRequest :: "tape_test \<Rightarrow> string \<Rightarrow> nat \<Rightarrow> message \<Rightarrow> string" where
  "validateRequest t tape_uuid roundNumber parsedMessage =
     (if \<not> peerInTestList t (uuid parsedMessage) then WRONG_TEST
      else if Buffer_compare (bulkData parsedMessage) bulkMessage \<noteq> 0 then WRONG_SYNTAX
      else if uuid parsedMessage = tape_uuid then WRONG_ME
      else if code parsedMessage \<noteq> toString roundNumber then WRONG_GEN
      else SUCCESS)"

subsection \<open>Promises\<close>

text \<open>
  The calls a piece of code makes to the \<^verbatim>\<open>resolve\<close> and \<^verbatim>\<open>reject\<close> functions of a
  promise, in the order in which they run.
\<close>

datatype reason = NoReason | Err string

datatype settle = Resolve | Reject reason

text \<open>
  Modelled from the spec: the promise library and promiseQueue.js are not among the
  sources. The operation passed to \<^verbatim>\<open>enqueue\<close> receives the \<^verbatim>\<open>resolve\<close> and \<^verbatim>\<open>reject\<close>
  handles of the promise \<^verbatim>\<open>enqueue\<close> returns, and a promise resolves or rejects exactly
  once: it settles at the first call, later calls do nothing, and with no call it is
  still pending (\<open>None\<close>).
\<close>

definition promise_outcome :: "settle list \<Rightarrow> settle option" where
  "promise_outcome calls = (case calls of [] \<Rightarrow> None | c # cs \<Rightarrow> Some c)"

subsection \<open>The client's reading of a response (clientSuccessConnect)\<close>

datatype connection_call = ConnectionDestroy | ConnectionEnd

text \<open>
  The \<^verbatim>\<open>then\<close> callback of \<^verbatim>\<open>clientSuccessConnect\<close>, from the parsed response on:
  the new \<^verbatim>\<open>peersWeSucceededWith\<close>, the call made on the promise, and the call made on
  the connection. A rejection carries the \<^verbatim>\<open>fatal\<close> flag of the error.
\<close>

datatype client_settle = ClientResolve | ClientReject bool

definition clientSuccessConnect_response ::
  "tape_test \<Rightarrow> message \<Rightarrow> (string \<rightharpoonup> bool)
     \<Rightarrow> (string \<rightharpoonup> bool) \<times> client_settle \<times> connection_call" where
  "clientSuccessConnect_response t parsedMessage peersWeSucceededWith =
     (let v = validateServerResponse t parsedMessage
      in if v = NON_FATAL then (peersWeSucceededWith, ClientReject False, ConnectionDestroy)
         else if v = OK then
           (peersWeSucceededWith(uuid parsedMessage \<mapsto> True), ClientResolve, ConnectionEnd)
         else (peersWeSucceededWith, ClientReject True, ConnectionDestroy))"

subsection \<open>The server side of a round (serverRound)\<close>















section \<open>ThaliNotificationServer (thaliNotificationServer.js)\<close>

text \<open>
  An element of \<^verbatim>\<open>publicKeysToNotify\<close>: a Buffer (\<^verbatim>\<open>typeof\<close> gives \<^verbatim>\<open>'object'\<close>), a string
  or a number. An \<^verbatim>\<open>undefined\<close> element passes the test of \<^verbatim>\<open>start\<close> as a number does.
  A \<^verbatim>\<open>null\<close> element, of type \<^verbatim>\<open>'object'\<close> and on which reading \<^verbatim>\<open>length\<close> throws, is
  not modelled.
\<close>

datatype publicKey = KeyBuffer buffer | KeyString string | KeyNumber int

datatype keysArgument = NotAnArray | Array "publicKey list"

definition typeof :: "publicKey \<Rightarrow> string" where
  "typeof k = (case k of KeyBuffer b \<Rightarrow> ''object'' | KeyString s \<Rightarrow> ''string''
                 | KeyNumber n \<Rightarrow> ''number'')"

text \<open>The \<^verbatim>\<open>length\<close> property; a number has none (\<^verbatim>\<open>undefined\<close>).\<close>

definition key_length :: "publicKey \<Rightarrow> nat option" where
  "key_length k = (case k of KeyBuffer b \<Rightarrow> Some (length b) | KeyString s \<Rightarrow> Some (length s)
                     | KeyNumber n \<Rightarrow> None)"

text \<open>The test of the \<^verbatim>\<open>forEach\<close> callback in \<^verbatim>\<open>start\<close>.\<close>

definition bad_public_key :: "publicKey \<Rightarrow> bool" where
  "bad_public_key publicKey = (typeof publicKey \<noteq> ''object'' \<or> key_length publicKey = Some 0)"

text \<open>
  The server object, with two counters for what it did to its collaborators: the
  handlers it registered on the router for the beacon path, and its calls of
  \<^verbatim>\<open>ThaliMobile.startUpdateAdvertisingAndListening\<close>.
\<close>

record ThaliNotificationServer =
  firstStartCall :: bool
  preambleAndBeacons :: "buffer option"
  registeredHandlers :: nat
  advertisingCalls :: nat

definition new_ThaliNotificationServer :: ThaliNotificationServer where
  "new_ThaliNotificationServer =
     \<lparr>firstStartCall = True, preambleAndBeacons = None, registeredHandlers = 0,
      advertisingCalls = 0\<rparr>"

text \<open>How the promise of \<^verbatim>\<open>startUpdateAdvertisingAndListening\<close> settles.\<close>

datatype transport_result = TransportOk | TransportFailed string

text \<open>
  The rest of the queued operation of \<^verbatim>\<open>start\<close> once \<^verbatim>\<open>_preambleAndBeacons\<close> is assigned.
  \<^verbatim>\<open>calls\<close> are the calls already made on the promise. The \<^verbatim>\<open>then\<close> and \<^verbatim>\<open>catch\<close>
  callbacks of the transport promise run in a later turn of the event loop, after the
  operation has returned through its last line, \<^verbatim>\<open>return resolve();\<close>.
\<close>

definition start_finish ::
  "transport_result \<Rightarrow> buffer option \<Rightarrow> settle list \<Rightarrow> ThaliNotificationServer
     \<Rightarrow> ThaliNotificationServer \<times> settle list" where
  "start_finish transport previousPreambleAndBeacons calls self =
     (let self1 = (if firstStartCall self
                   then self\<lparr>registeredHandlers := registeredHandlers self + 1,
                            firstStartCall := False\<rparr>
                   else self)
      in if preambleAndBeacons self1 \<noteq> None \<or> previousPreambleAndBeacons \<noteq> None
         then (self1\<lparr>advertisingCalls := advertisingCalls self1 + 1\<rparr>,
               calls @ [Resolve] @
                 [case transport of TransportOk \<Rightarrow> Resolve | TransportFailed e \<Rightarrow> Reject (Err e)])
         else (self1, calls @ [Resolve]))"

text \<open>
  The operation \<^verbatim>\<open>start\<close> enqueues. \<^verbatim>\<open>generate\<close> stands for
  \<^verbatim>\<open>NotificationBeacons.generatePreambleAndBeacons\<close> with the server's key and expiry:
  it returns the blob or throws. The \<^verbatim>\<open>return\<close> inside the \<^verbatim>\<open>forEach\<close> callback leaves
  that callback only, so every bad key makes one call of \<^verbatim>\<open>reject\<close> and the operation
  goes on.
\<close>

definition start ::
  "(publicKey list \<Rightarrow> string + buffer) \<Rightarrow> transport_result \<Rightarrow> ThaliNotificationServer
     \<Rightarrow> keysArgument \<Rightarrow> ThaliNotificationServer \<times> settle list" where
  "start generate transport self publicKeysToNotify =
     (let previousPreambleAndBeacons = preambleAndBeacons self
      in case publicKeysToNotify of
           NotAnArray \<Rightarrow> (self, [Reject (Err ''bad public keys'')])
         | Array keys \<Rightarrow>
             if length keys > 0 then
               (let calls = map (\<lambda>k. Reject (Err ''bad public keys'')) (filter bad_public_key keys)
                in case generate keys of
                     Inl error \<Rightarrow> (self, calls @ [Reject (Err error)])
                   | Inr blob \<Rightarrow>
                       start_finish transport previousPreambleAndBeacons calls
                         (self\<lparr>preambleAndBeacons := Some blob\<rparr>))
             else start_finish transport previousPreambleAndBeacons []
                    (self\<lparr>preambleAndBeacons := None\<rparr>))"

text \<open>The handler \<^verbatim>\<open>getBeaconNotifications\<close>: status, headers, body.\<close>

record response =
  status :: nat
  headers :: "(string \<times> string) list"
  body :: buffer

definition getBeaconNotifications :: "ThaliNotificationServer \<Rightarrow> response" where
  "getBeaconNotifications self =
     (case preambleAndBeacons self of
        None \<Rightarrow> \<lparr>status = 204, headers = [], body = []\<rparr>
      | Some b \<Rightarrow> \<lparr>status = 200,
                   headers = [(''Content-Type'', ''application/octet-stream''),
                              (''Cache-Control'', ''no-cache'')],
                   body = b\<rparr>)"

text \<open>
  A GET on \<^verbatim>\<open>/NotificationBeacons\<close>: answered by the handler once \<^verbatim>\<open>start\<close> has
  registered it, and left to the router (\<open>None\<close>) before that.
\<close>

definition GET_NotificationBeacons :: "ThaliNotificationServer \<Rightarrow> response option" where
  "GET_NotificationBeacons self =
     (if registeredHandlers self = 0 then None else Some (getBeaconNotifications self))"

text \<open>
  Modelled from the spec: the keys \<^verbatim>\<open>generatePreambleAndBeacons\<close> accepts. The function
  is in thaliNotificationBeacons.js, which is not among the sources; the spec's
  BeaconCodec.generate fails "if any recipient key is malformed (wrong length/type)". The
  length of a public key is not given by the spec and is a parameter.
\<close>

definition well_formed_key :: "nat \<Rightarrow> publicKey \<Rightarrow> bool" where
  "well_formed_key keyLength k =
     (case k of KeyBuffer b \<Rightarrow> length b = keyLength | KeyString s \<Rightarrow> False
        | KeyNumber n \<Rightarrow> False)"

text \<open>
  Modelled from the spec: \<^verbatim>\<open>generatePreambleAndBeacons\<close> of thaliNotificationBeacons.js,
  which is not among the sources. The spec's BeaconCodec.generate "fails with
  InvalidKeyError if any recipient key is malformed" and otherwise produces the blob,
  whose bytes (ephemeral key, expiry, encrypted records) are a parameter.
\<close>

definition generatePreambleAndBeacons ::
  "nat \<Rightarrow> (publicKey list \<Rightarrow> buffer) \<Rightarrow> publicKey list \<Rightarrow> string + buffer" where
  "generatePreambleAndBeacons keyLength encode keys =
     (if list_all (well_formed_key keyLength) keys then Inr (encode keys)
      else Inl ''InvalidKeyError'')"

section \<open>PeerIdentifier (PeerIdentifier.swift)\<close>

text \<open>
  Swift's \<^verbatim>\<open>Int\<close> is a 64-bit two's complement integer on the devices the plugin
  targets; it is modelled as an \<open>int\<close> between \<open>Int_min\<close> and \<open>Int_max\<close>, with the trap
  of \<^verbatim>\<open>+\<close> on overflow written out. A \<^verbatim>\<open>String\<close> is its list of characters.
\<close>

definition Int_max :: int where "Int_max = 2 ^ 63 - 1"
definition Int_min :: int where "Int_min = - (2 ^ 63)"

record PeerIdentifier =
  peer_uuid :: string
  generation :: int

datatype PeerIdentifierError = WrongDataFormat

text \<open>
  \<^verbatim>\<open>stringValue.characters.split { $0 == ":" }\<close>: the maximal runs of characters that are
  not separators; empty runs are left out (\<^verbatim>\<open>allowEmptySlices\<close> is false by default).
\<close>

fun split_loop :: "(char \<Rightarrow> bool) \<Rightarrow> string \<Rightarrow> string \<Rightarrow> string list" where
  "split_loop isSeparator cur [] = (if cur = [] then [] else [cur])"
| "split_loop isSeparator cur (c # cs) =
     (if isSeparator c
      then (if cur = [] then split_loop isSeparator [] cs
            else cur # split_loop isSeparator [] cs)
      else split_loop isSeparator (cur @ [c]) cs)"

definition split :: "(char \<Rightarrow> bool) \<Rightarrow> string \<Rightarrow> string list" where
  "split isSeparator s = split_loop isSeparator [] s"

text \<open>
  \<^verbatim>\<open>Int(text, radix: r)\<close>: \<open>None\<close> unless the text is an optional sign followed by one
  or more digits or letters, each a digit of the radix, denoting a value an \<^verbatim>\<open>Int\<close> holds.
\<close>

definition digit_value :: "char \<Rightarrow> nat option" where
  "digit_value c =
     (let n = (of_char c :: nat)
      in if 48 \<le> n \<and> n \<le> 57 then Some (n - 48)
         else if 97 \<le> n \<and> n \<le> 122 then Some (n - 87)
         else if 65 \<le> n \<and> n \<le> 90 then Some (n - 55)
         else None)"

fun parse_digits :: "nat \<Rightarrow> nat \<Rightarrow> string \<Rightarrow> nat option" where
  "parse_digits r acc [] = Some acc"
| "parse_digits r acc (c # cs) =
     (case digit_value c of
        None \<Rightarrow> None
      | Some d \<Rightarrow> if d < r then parse_digits r (acc * r + d) cs else None)"

definition parse_magnitude :: "nat \<Rightarrow> string \<Rightarrow> nat option" where
  "parse_magnitude r ds = (if ds = [] then None else parse_digits r 0 ds)"

definition Int_radix :: "string \<Rightarrow> nat \<Rightarrow> int option" where
  "Int_radix text r =
     (case text of
        [] \<Rightarrow> None
      | c # cs \<Rightarrow>
          if c = CHR ''-'' then
            (case parse_magnitude r cs of
               None \<Rightarrow> None
             | Some m \<Rightarrow> if Int_min \<le> - int m then Some (- int m) else None)
          else
            (case parse_magnitude r (if c = CHR ''+'' then cs else text) of
               None \<Rightarrow> None
             | Some m \<Rightarrow> if int m \<le> Int_max then Some (int m) else None))"

text \<open>\<^verbatim>\<open>String(n, radix: r)\<close>: a minus sign for a negative number, then the digits.\<close>

definition String_radix :: "int \<Rightarrow> nat \<Rightarrow> string" where
  "String_radix n r =
     (if n < 0 then CHR ''-'' # digits_radix r (nat (- n)) else digits_radix r (nat n))"

text \<open>\<^verbatim>\<open>init(stringValue:)\<close>, which throws \<^verbatim>\<open>WrongDataFormat\<close>.\<close>

definition init_stringValue :: "string \<Rightarrow> PeerIdentifierError + PeerIdentifier" where
  "init_stringValue s =
     (case split (\<lambda>c. c = CHR '':'') s of
        [p0, p1] \<Rightarrow>
          (case Int_radix p1 16 of
             None \<Rightarrow> Inl WrongDataFormat
           | Some g \<Rightarrow> Inr \<lparr>peer_uuid = p0, generation = g\<rparr>)
      | _ \<Rightarrow> Inl WrongDataFormat)"

text \<open>\<^verbatim>\<open>generation + 1\<close> traps when the sum is not an \<^verbatim>\<open>Int\<close>: \<open>None\<close>.\<close>

definition nextGenerationPeer :: "PeerIdentifier \<Rightarrow> PeerIdentifier option" where
  "nextGenerationPeer p =
     (if generation p + 1 \<le> Int_max
      then Some \<lparr>peer_uuid = peer_uuid p, generation = generation p + 1\<rparr>
      else None)"

definition stringValue :: "PeerIdentifier \<Rightarrow> string" where
  "stringValue p = peer_uuid p @ '':'' @ String_radix (generation p) 16"

section \<open>Examples\<close>

text \<open>A signal with one timer and one cancel call registered, for the examples.\<close>

definition example_signal :: QuitSignal where
  "example_signal =
     \<lparr>raised = False,
      timeOuts = [Some \<lparr>ref = 0, timeOut = TimerHandle 5, successCb = 1\<rparr>],
      cancelCalls = [2]\<rparr>"

text \<open>Three participants, for the examples.\<close>

definition example_test :: tape_test where
  "example_test =
     \<lparr>participants = [\<lparr>participant_uuid = ''A''\<rparr>, \<lparr>participant_uuid = ''B''\<rparr>,
                      \<lparr>participant_uuid = ''C''\<rparr>]\<rparr>"


text \<open>
  For the examples: a generator that always returns a blob, the generator of the spec
  for keys of two bytes, a well-formed key, and a server that advertises a blob.
\<close>

definition generate_ok :: "publicKey list \<Rightarrow> string + buffer" where
  "generate_ok keys = Inr ''beacons''"

definition example_generate :: "publicKey list \<Rightarrow> string + buffer" where
  "example_generate = generatePreambleAndBeacons 2 (\<lambda>keys. ''beacons'')"

definition k1 :: publicKey where
  "k1 = KeyBuffer ''k1''"

definition advertising_server :: ThaliNotificationServer where
  "advertising_server =
     \<lparr>firstStartCall = False, preambleAndBeacons = Some ''old beacons'',
      registeredHandlers = 1, advertisingCalls = 1\<rparr>"

section \<open>Properties of QuitSignal\<close>

lemma array_get_not_timer: "array_get ts k \<noteq> TimerHandle h"
  by (simp add: array_get_def split: option.split)

lemma removeTimeout_loop_timer: "removeTimeout_loop ks (TimerHandle h) ts = ts"
  by (induction ks) (simp_all add: array_get_not_timer)

lemma forEach_timeOuts_append:
  "forEach_timeOuts (xs @ ys) = forEach_timeOuts xs @ forEach_timeOuts ys"
  by (induction xs rule: forEach_timeOuts.induct) simp_all

lemma forEach_timeOuts_registered:
  "forEach_timeOuts ts =
     concat (map (\<lambda>s. [ClearTimeout (timeOut s), InvokeSuccessCb (successCb s) JNull JNull])
       (List.map_filter id ts))"
  by (induction ts rule: forEach_timeOuts.induct) simp_all

lemma perform_raised: "raised qs \<Longrightarrow> perform qs c = (qs, [])"
  by (cases c) (simp_all add: keep_def addCancelCall_def addTimeout_def removeTimeout_def raiseSignal_def)

lemma perform_all_raised: "raised qs \<Longrightarrow> perform_all qs cs = (qs, [])"
  by (induction cs) (simp_all add: perform_raised)

lemma raised_raiseSignal: "raised (fst (raiseSignal qs))"
  by (simp add: raiseSignal_def)

lemma count_forEach_cancel: "count_list (forEach_timeOuts ts) (InvokeCancelCall c) = 0"
  by (induction ts rule: forEach_timeOuts.induct) simp_all

lemma count_forEach_clear:
  "count_list (forEach_timeOuts ts) (ClearTimeout t) =
     length (filter (\<lambda>s. timeOut s = t) (List.map_filter id ts))"
  by (induction ts rule: forEach_timeOuts.induct) simp_all

lemma count_forEach_cb:
  "count_list (forEach_timeOuts ts) (InvokeSuccessCb cb JNull JNull) =
     length (filter (\<lambda>s. successCb s = cb) (List.map_filter id ts))"
  by (induction ts rule: forEach_timeOuts.induct) simp_all

lemma count_cancel_clear: "count_list (map InvokeCancelCall cs) (ClearTimeout t) = 0"
  by (induction cs) simp_all

lemma count_cancel_cb: "count_list (map InvokeCancelCall cs) (InvokeSuccessCb cb a b) = 0"
  by (induction cs) simp_all

lemma count_cancel_cancel:
  "count_list (map InvokeCancelCall cs) (InvokeCancelCall c) = count_list cs c"
  by (induction cs) simp_all

lemma count_list_app: "count_list (xs @ ys) x = count_list xs x + count_list ys x"
  by (induction xs) simp_all

lemma forEach_timeOuts_member:
  "Some s \<in> set ts \<Longrightarrow>
     \<exists>es es'. forEach_timeOuts ts =
       es @ ClearTimeout (timeOut s) # InvokeSuccessCb (successCb s) JNull JNull # es'"
proof (induction ts rule: forEach_timeOuts.induct)
  case 1
  then show ?case by simp
next
  case (2 ts)
  then show ?case by simp
next
  case (3 s' ts)
  show ?case
  proof (cases "s' = s")
    case True
    then have "forEach_timeOuts (Some s' # ts) =
        [] @ ClearTimeout (timeOut s) # InvokeSuccessCb (successCb s) JNull JNull # forEach_timeOuts ts"
      by simp
    then show ?thesis by blast
  next
    case False
    with 3 obtain es es' where
      "forEach_timeOuts ts = es @ ClearTimeout (timeOut s) # InvokeSuccessCb (successCb s) JNull JNull # es'"
      by auto
    then have "forEach_timeOuts (Some s' # ts) =
        (ClearTimeout (timeOut s') # InvokeSuccessCb (successCb s') JNull JNull # es) @
          ClearTimeout (timeOut s) # InvokeSuccessCb (successCb s) JNull JNull # es'"
      by simp
    then show ?thesis by blast
  qed
qed

text \<open>
  C5. Any number of calls of \<^verbatim>\<open>raiseSignal\<close>, one after the other, leave the signal
  and the world as a single call does: the signal ends raised, and no later call of any
  method changes it or has an effect. On a signal not yet raised the single call clears
  each registered timer and invokes its completion callback with \<^verbatim>\<open>(null, null)\<close>, and
  invokes each cancel call, once per registration and nothing else.
\<close>

theorem raiseSignal_idempotent:
  "perform_all qs (replicate (Suc n) RaiseSignal) = raiseSignal qs
   \<and> raised (fst (raiseSignal qs))
   \<and> perform_all (fst (raiseSignal qs)) cs = (fst (raiseSignal qs), [])
   \<and> (\<not> raised qs \<longrightarrow>
        snd (raiseSignal qs) =
          concat (map (\<lambda>s. [ClearTimeout (timeOut s), InvokeSuccessCb (successCb s) JNull JNull])
            (registered qs)) @ map InvokeCancelCall (cancelCalls qs)
        \<and> count_list (snd (raiseSignal qs)) (ClearTimeout t) =
            length (filter (\<lambda>s. timeOut s = t) (registered qs))
        \<and> count_list (snd (raiseSignal qs)) (InvokeSuccessCb cb JNull JNull) =
            length (filter (\<lambda>s. successCb s = cb) (registered qs))
        \<and> count_list (snd (raiseSignal qs)) (InvokeCancelCall c) = count_list (cancelCalls qs) c)"
proof -
  have r: "raised (fst (raiseSignal qs))" by (rule raised_raiseSignal)
  have 1: "perform_all qs (replicate (Suc n) RaiseSignal) = raiseSignal qs"
    using perform_all_raised [OF r, of "replicate n RaiseSignal"]
    by (simp add: split_beta)
  have 3: "perform_all (fst (raiseSignal qs)) cs = (fst (raiseSignal qs), [])"
    by (rule perform_all_raised [OF r])
  have 4: "snd (raiseSignal qs) =
          concat (map (\<lambda>s. [ClearTimeout (timeOut s), InvokeSuccessCb (successCb s) JNull JNull])
            (registered qs)) @ map InvokeCancelCall (cancelCalls qs)" if "\<not> raised qs"
    using that by (simp add: raiseSignal_def registered_def forEach_timeOuts_registered)
  have e: "snd (raiseSignal qs) = forEach_timeOuts (timeOuts qs) @ map InvokeCancelCall (cancelCalls qs)"
    if "\<not> raised qs"
    using that by (simp add: raiseSignal_def)
  have 5: "count_list (snd (raiseSignal qs)) (ClearTimeout t) =
            length (filter (\<lambda>s. timeOut s = t) (registered qs))" if "\<not> raised qs"
    by (simp add: e [OF that] count_list_app count_forEach_clear count_cancel_clear registered_def)
  have 6: "count_list (snd (raiseSignal qs)) (InvokeSuccessCb cb JNull JNull) =
            length (filter (\<lambda>s. successCb s = cb) (registered qs))" if "\<not> raised qs"
    by (simp add: e [OF that] count_list_app count_forEach_cb count_cancel_cb registered_def)
  have 7: "count_list (snd (raiseSignal qs)) (InvokeCancelCall c) = count_list (cancelCalls qs) c"
    if "\<not> raised qs"
    by (simp add: e [OF that] count_list_app count_forEach_cancel count_cancel_cancel)
  from 1 r 3 4 5 6 7 show ?thesis by blast
qed

theorem raiseSignal_idempotent_witness:
  "perform_all example_signal [RaiseSignal, RaiseSignal, RaiseSignal] =
     (example_signal\<lparr>raised := True\<rparr>,
      [ClearTimeout (TimerHandle 5), InvokeSuccessCb 1 JNull JNull, InvokeCancelCall 2])
   \<and> count_list (snd (raiseSignal example_signal)) (InvokeCancelCall 2) = 1
   \<and> count_list (snd (raiseSignal example_signal)) (ClearTimeout (TimerHandle 5)) = 1"
  using raiseSignal_idempotent [of example_signal 2 "[]" "TimerHandle 5" 1 2]
  by (simp add: example_signal_def raiseSignal_def registered_def numeral_3_eq_3 numeral_2_eq_2)

lemma map_filter_app: "List.map_filter f (xs @ ys) = List.map_filter f xs @ List.map_filter f ys"
  by (simp add: List.map_filter_def)

text \<open>
  C6. On a raised signal \<^verbatim>\<open>addTimeout\<close> and \<^verbatim>\<open>addCancelCall\<close> throw an assertion error and
  the signal is left as it was; on a signal not raised they return and the registration
  is the last one of its list.
\<close>

theorem registration_after_raise_fails:
  "(raised qs \<longrightarrow>
      addTimeout qs t cb = Inl (AssertionError ''No calling addTimeout after signal is raised'')
      \<and> addCancelCall qs c =
          Inl (AssertionError ''No calling addCancelCall after signal is raised'')
      \<and> perform qs (AddTimeout t cb) = (qs, [])
      \<and> perform qs (AddCancelCall c) = (qs, []))
   \<and> (\<not> raised qs \<longrightarrow>
      (\<exists>qs'. addTimeout qs t cb = Inr qs'
         \<and> registered qs' =
             registered qs @ [\<lparr>ref = length (timeOuts qs), timeOut = t, successCb = cb\<rparr>]
         \<and> cancelCalls qs' = cancelCalls qs \<and> \<not> raised qs')
      \<and> (\<exists>qs'. addCancelCall qs c = Inr qs'
         \<and> cancelCalls qs' = cancelCalls qs @ [c]
         \<and> timeOuts qs' = timeOuts qs \<and> \<not> raised qs'))"
proof (cases "raised qs")
  case True
  then show ?thesis
    by (simp add: addTimeout_def addCancelCall_def keep_def)
next
  case False
  then have "addTimeout qs t cb =
      Inr (qs\<lparr>timeOuts := timeOuts qs @
             [Some \<lparr>ref = length (timeOuts qs), timeOut = t, successCb = cb\<rparr>]\<rparr>)"
    and "addCancelCall qs c = Inr (qs\<lparr>cancelCalls := cancelCalls qs @ [c]\<rparr>)"
    by (simp_all add: addTimeout_def addCancelCall_def)
  with False show ?thesis
    by (simp add: registered_def map_filter_app)
qed

theorem registration_after_raise_fails_witness:
  "addTimeout (fst (raiseSignal new_QuitSignal)) (TimerHandle 3) 1 =
     Inl (AssertionError ''No calling addTimeout after signal is raised'')
   \<and> addCancelCall (fst (raiseSignal new_QuitSignal)) 2 =
     Inl (AssertionError ''No calling addCancelCall after signal is raised'')
   \<and> (\<exists>qs'. addTimeout new_QuitSignal (TimerHandle 3) 1 = Inr qs'
        \<and> registered qs' = [\<lparr>ref = 0, timeOut = TimerHandle 3, successCb = 1\<rparr>])
   \<and> (\<exists>qs'. addCancelCall new_QuitSignal 2 = Inr qs' \<and> cancelCalls qs' = [2])"
  using registration_after_raise_fails [of "fst (raiseSignal new_QuitSignal)" "TimerHandle 3" 1 2]
    registration_after_raise_fails [of new_QuitSignal "TimerHandle 3" 1 2]
  by (auto simp add: raiseSignal_def new_QuitSignal_def registered_def)

text \<open>
  C10. On a signal not raised, \<^verbatim>\<open>removeTimeout\<close> of a timer handle removes nothing: it
  compares the stored structures with the handle. Every stored registration is still
  fired by \<^verbatim>\<open>raiseSignal\<close>; in particular \<^verbatim>\<open>addTimeout(t, cb)\<close>, \<^verbatim>\<open>removeTimeout(t)\<close>,
  \<^verbatim>\<open>raiseSignal()\<close> clears \<open>t\<close> and invokes \<open>cb\<close> with \<^verbatim>\<open>(null, null)\<close>.
\<close>

theorem removeTimeout_leaves_registration:
  assumes "\<not> raised qs"
  shows "removeTimeout qs (TimerHandle h) = Inr qs
     \<and> (Some s \<in> set (timeOuts qs) \<longrightarrow>
          (\<exists>es es'. snd (raiseSignal qs) =
             es @ ClearTimeout (timeOut s) # InvokeSuccessCb (successCb s) JNull JNull # es'))
     \<and> perform_all qs [AddTimeout (TimerHandle h) cb, RemoveTimeout (TimerHandle h), RaiseSignal] =
         (qs\<lparr>raised := True,
             timeOuts := timeOuts qs @
               [Some \<lparr>ref = length (timeOuts qs), timeOut = TimerHandle h, successCb = cb\<rparr>]\<rparr>,
          forEach_timeOuts (timeOuts qs) @
            [ClearTimeout (TimerHandle h), InvokeSuccessCb cb JNull JNull] @
            map InvokeCancelCall (cancelCalls qs))"
proof -
  have 1: "removeTimeout qs' (TimerHandle h) = Inr qs'" if "\<not> raised qs'" for qs'
    using that by (simp add: removeTimeout_def removeTimeout_loop_timer)
  have 2: "\<exists>es es'. snd (raiseSignal qs) =
             es @ ClearTimeout (timeOut s) # InvokeSuccessCb (successCb s) JNull JNull # es'"
    if m: "Some s \<in> set (timeOuts qs)"
  proof -
    from forEach_timeOuts_member [OF m] obtain es es' where
      "forEach_timeOuts (timeOuts qs) =
         es @ ClearTimeout (timeOut s) # InvokeSuccessCb (successCb s) JNull JNull # es'"
      by blast
    then have "snd (raiseSignal qs) =
         es @ ClearTimeout (timeOut s) # InvokeSuccessCb (successCb s) JNull JNull #
           (es' @ map InvokeCancelCall (cancelCalls qs))"
      using assms by (simp add: raiseSignal_def)
    then show ?thesis by blast
  qed
  have 3: "perform_all qs [AddTimeout (TimerHandle h) cb, RemoveTimeout (TimerHandle h), RaiseSignal] =
         (qs\<lparr>raised := True,
             timeOuts := timeOuts qs @
               [Some \<lparr>ref = length (timeOuts qs), timeOut = TimerHandle h, successCb = cb\<rparr>]\<rparr>,
          forEach_timeOuts (timeOuts qs) @
            [ClearTimeout (TimerHandle h), InvokeSuccessCb cb JNull JNull] @
            map InvokeCancelCall (cancelCalls qs))"
    using assms
    by (simp add: addTimeout_def keep_def removeTimeout_def removeTimeout_loop_timer
        raiseSignal_def forEach_timeOuts_append)
  from 1 [OF assms] 2 3 show ?thesis by blast
qed

theorem removeTimeout_leaves_registration_witness:
  "\<not> raised new_QuitSignal
   \<and> removeTimeout new_QuitSignal (TimerHandle 4) = Inr new_QuitSignal
   \<and> snd (perform_all new_QuitSignal
        [AddTimeout (TimerHandle 4) 9, RemoveTimeout (TimerHandle 4), RaiseSignal]) =
       [ClearTimeout (TimerHandle 4), InvokeSuccessCb 9 JNull JNull]"
proof -
  have h: "\<not> raised new_QuitSignal" by (simp add: new_QuitSignal_def)
  from removeTimeout_leaves_registration [OF h, of 4 _ 9] h
  show ?thesis by (simp add: new_QuitSignal_def)
qed

section \<open>Properties of the round protocol\<close>

lemma Buffer_compare_eq: "Buffer_compare xs ys = 0 \<longleftrightarrow> xs = ys"
  by (induction xs ys rule: Buffer_compare.induct) (auto simp: of_char_eq_iff)

lemma peerInTestList_loop_iff: "peerInTestList_loop ps u \<longleftrightarrow> u \<in> participant_uuid ` set ps"
  by (induction ps) auto

lemma peerInTestList_iff:
  "peerInTestList t u \<longleftrightarrow> u \<in> participant_uuid ` set (participants t)"
  by (simp add: peerInTestList_def peerInTestList_loop_iff)

lemma protocolResult_distinct: "distinct [WRONG_GEN, WRONG_TEST, SUCCESS, WRONG_ME, WRONG_SYNTAX]"
  by (simp add: WRONG_GEN_def WRONG_TEST_def SUCCESS_def WRONG_ME_def WRONG_SYNTAX_def)

lemma validateResponse_distinct: "distinct [FATAL, NON_FATAL, OK]"
  by (simp add: FATAL_def NON_FATAL_def OK_def)

lemma validateRequest_cases:
  "validateRequest t tape_uuid roundNumber m \<in>
     set [WRONG_GEN, WRONG_TEST, SUCCESS, WRONG_ME, WRONG_SYNTAX]"
  by (simp add: validateRequest_def)

lemma validateRequest_order:
  "validateRequest t tape_uuid roundNumber m =
     (if uuid m \<notin> participant_uuid ` set (participants t) then WRONG_TEST
      else if bulkData m \<noteq> bulkMessage then WRONG_SYNTAX
      else if uuid m = tape_uuid then WRONG_ME
      else if code m \<noteq> toString roundNumber then WRONG_GEN
      else SUCCESS)"
  by (simp add: validateRequest_def peerInTestList_iff Buffer_compare_eq)


lemma toString_1: "toString (Suc 0) = ''1''"
  by code_simp

lemma bulkMessage_not_Nil: "bulkMessage \<noteq> []"
  by (simp add: bulkMessage_def)

text \<open>
  C3. The server's validation of a parsed message \<open>(uuid, code, bulkData)\<close> returns one of
  the five codes, which are pairwise different, decided in this order: WRONG_TEST when
  the uuid is not a participant's; else WRONG_SYNTAX when the bulk data is not the
  canonical payload, byte for byte; else WRONG_ME when the uuid is the local one; else
  WRONG_GEN when the code is not the round number's string form; else SUCCESS.
\<close>

theorem validateRequest_outcome:
  "validateRequest t tape_uuid roundNumber m =
     (if uuid m \<notin> participant_uuid ` set (participants t) then WRONG_TEST
      else if bulkData m \<noteq> bulkMessage then WRONG_SYNTAX
      else if uuid m = tape_uuid then WRONG_ME
      else if code m \<noteq> toString roundNumber then WRONG_GEN
      else SUCCESS)
   \<and> validateRequest t tape_uuid roundNumber m \<in>
       set [WRONG_GEN, WRONG_TEST, SUCCESS, WRONG_ME, WRONG_SYNTAX]
   \<and> distinct [WRONG_GEN, WRONG_TEST, SUCCESS, WRONG_ME, WRONG_SYNTAX]"
  using validateRequest_order [of t tape_uuid roundNumber m]
    validateRequest_cases [of t tape_uuid roundNumber m] protocolResult_distinct
  by blast

theorem validateRequest_outcome_witness:
  "validateRequest example_test ''A'' 1 \<lparr>uuid = ''B'', code = ''1'', bulkData = bulkMessage\<rparr> = SUCCESS
   \<and> validateRequest example_test ''A'' 1 \<lparr>uuid = ''B'', code = ''0'', bulkData = bulkMessage\<rparr> = WRONG_GEN
   \<and> validateRequest example_test ''A'' 1 \<lparr>uuid = ''A'', code = ''1'', bulkData = bulkMessage\<rparr> = WRONG_ME
   \<and> validateRequest example_test ''A'' 1 \<lparr>uuid = ''B'', code = ''1'', bulkData = []\<rparr> = WRONG_SYNTAX
   \<and> validateRequest example_test ''A'' 1 \<lparr>uuid = ''D'', code = ''1'', bulkData = bulkMessage\<rparr> = WRONG_TEST"
proof -
  note e = example_test_def toString_1 bulkMessage_not_Nil [symmetric]
  have "validateRequest example_test ''A'' 1 \<lparr>uuid = ''B'', code = ''1'', bulkData = bulkMessage\<rparr> = SUCCESS"
    by (simp only: validateRequest_outcome [THEN conjunct1]) (simp add: e)
  moreover
  have "validateRequest example_test ''A'' 1 \<lparr>uuid = ''B'', code = ''0'', bulkData = bulkMessage\<rparr> = WRONG_GEN"
    by (simp only: validateRequest_outcome [THEN conjunct1]) (simp add: e)
  moreover
  have "validateRequest example_test ''A'' 1 \<lparr>uuid = ''A'', code = ''1'', bulkData = bulkMessage\<rparr> = WRONG_ME"
    by (simp only: validateRequest_outcome [THEN conjunct1]) (simp add: e)
  moreover
  have "validateRequest example_test ''A'' 1 \<lparr>uuid = ''B'', code = ''1'', bulkData = []\<rparr> = WRONG_SYNTAX"
    by (simp only: validateRequest_outcome [THEN conjunct1]) (simp add: e)
  moreover
  have "validateRequest example_test ''A'' 1 \<lparr>uuid = ''D'', code = ''1'', bulkData = bulkMessage\<rparr> = WRONG_TEST"
    by (simp only: validateRequest_outcome [THEN conjunct1]) (simp add: e)
  ultimately show ?thesis by blast
qed

text \<open>
  C4. The client's reading of a parsed response: non-fatal when the responder is not a
  participant; else fatal when the bulk data is not the canonical payload; else non-fatal
  for the codes WRONG_ME and WRONG_GEN, fatal for WRONG_TEST and WRONG_SYNTAX, ok for
  SUCCESS and fatal for any other code. On ok the responder is marked in
  \<^verbatim>\<open>peersWeSucceededWith\<close>, the promise resolved and the connection ended; otherwise the
  connection is destroyed and the promise rejected with the matching \<^verbatim>\<open>fatal\<close> flag.
\<close>

theorem validateServerResponse_classification:
  "validateServerResponse t r =
     (if uuid r \<notin> participant_uuid ` set (participants t) then NON_FATAL
      else if bulkData r \<noteq> bulkMessage then FATAL
      else if code r = WRONG_ME \<or> code r = WRONG_GEN then NON_FATAL
      else if code r = WRONG_TEST \<or> code r = WRONG_SYNTAX then FATAL
      else if code r = SUCCESS then OK
      else FATAL)
   \<and> distinct [FATAL, NON_FATAL, OK]
   \<and> clientSuccessConnect_response t r peers =
       (if validateServerResponse t r = OK
        then (peers(uuid r \<mapsto> True), ClientResolve, ConnectionEnd)
        else if validateServerResponse t r = NON_FATAL
        then (peers, ClientReject False, ConnectionDestroy)
        else (peers, ClientReject True, ConnectionDestroy))"
proof -
  have 1: "validateServerResponse t r =
     (if uuid r \<notin> participant_uuid ` set (participants t) then NON_FATAL
      else if bulkData r \<noteq> bulkMessage then FATAL
      else if code r = WRONG_ME \<or> code r = WRONG_GEN then NON_FATAL
      else if code r = WRONG_TEST \<or> code r = WRONG_SYNTAX then FATAL
      else if code r = SUCCESS then OK
      else FATAL)"
    by (auto simp add: validateServerResponse_def peerInTestList_iff Buffer_compare_eq)
  have 2: "clientSuccessConnect_response t r peers =
       (if validateServerResponse t r = OK
        then (peers(uuid r \<mapsto> True), ClientResolve, ConnectionEnd)
        else if validateServerResponse t r = NON_FATAL
        then (peers, ClientReject False, ConnectionDestroy)
        else (peers, ClientReject True, ConnectionDestroy))"
    using validateResponse_distinct by (auto simp add: clientSuccessConnect_response_def Let_def)
  from 1 2 validateResponse_distinct show ?thesis by blast
qed

theorem validateServerResponse_classification_witness:
  "validateServerResponse example_test \<lparr>uuid = ''D'', code = SUCCESS, bulkData = bulkMessage\<rparr> = NON_FATAL
   \<and> validateServerResponse example_test \<lparr>uuid = ''B'', code = SUCCESS, bulkData = []\<rparr> = FATAL
   \<and> validateServerResponse example_test \<lparr>uuid = ''B'', code = WRONG_ME, bulkData = bulkMessage\<rparr> = NON_FATAL
   \<and> validateServerResponse example_test \<lparr>uuid = ''B'', code = WRONG_TEST, bulkData = bulkMessage\<rparr> = FATAL
   \<and> validateServerResponse example_test \<lparr>uuid = ''B'', code = ''9'', bulkData = bulkMessage\<rparr> = FATAL
   \<and> clientSuccessConnect_response example_test
        \<lparr>uuid = ''B'', code = SUCCESS, bulkData = bulkMessage\<rparr> Map.empty =
       ([''B'' \<mapsto> True], ClientResolve, ConnectionEnd)"
  using validateServerResponse_classification [of example_test "\<lparr>uuid = ''D'', code = SUCCESS, bulkData = bulkMessage\<rparr>" Map.empty]
    validateServerResponse_classification [of example_test "\<lparr>uuid = ''B'', code = SUCCESS, bulkData = []\<rparr>" Map.empty]
    validateServerResponse_classification [of example_test "\<lparr>uuid = ''B'', code = WRONG_ME, bulkData = bulkMessage\<rparr>" Map.empty]
    validateServerResponse_classification [of example_test "\<lparr>uuid = ''B'', code = WRONG_TEST, bulkData = bulkMessage\<rparr>" Map.empty]
    validateServerResponse_classification [of example_test "\<lparr>uuid = ''B'', code = ''9'', bulkData = bulkMessage\<rparr>" Map.empty]
    validateServerResponse_classification [of example_test "\<lparr>uuid = ''B'', code = SUCCESS, bulkData = bulkMessage\<rparr>" Map.empty]
  by (simp add: example_test_def bulkMessage_not_Nil [symmetric]
      WRONG_GEN_def WRONG_TEST_def SUCCESS_def WRONG_ME_def WRONG_SYNTAX_def
      FATAL_def NON_FATAL_def OK_def)

subsection \<open>The server side of a round\<close>

























section \<open>Properties of ThaliNotificationServer\<close>

lemma promise_outcome_append:
  "promise_outcome (xs @ ys) = (case promise_outcome xs of None \<Rightarrow> promise_outcome ys | Some c \<Rightarrow> Some c)"
  by (cases xs) (simp_all add: promise_outcome_def)

lemma start_finish_outcome:
  "promise_outcome (snd (start_finish transport previous calls self)) =
     (case promise_outcome calls of None \<Rightarrow> Some Resolve | Some c \<Rightarrow> Some c)"
  by (simp add: start_finish_def Let_def promise_outcome_append)
     (simp add: promise_outcome_def split: option.split)

lemma start_outcome_any_transport:
  "promise_outcome (snd (start generate transport self a)) =
     promise_outcome (snd (start generate transport' self a))"
  by (cases a)
     (simp_all add: start_def Let_def start_finish_outcome split: sum.split)

text \<open>
  C1. The outcome of the promise of \<^verbatim>\<open>start\<close> does not depend on how the transport
  operation settles: the operation calls \<^verbatim>\<open>resolve\<close> on its last line before the
  callbacks of the transport promise can run. A first \<^verbatim>\<open>start([k1])\<close> whose transport
  operation fails with \<open>Failed\<close> calls \<^verbatim>\<open>resolve\<close> and then \<^verbatim>\<open>reject\<close>, and its promise is
  resolved.
\<close>

theorem start_resolves_despite_transport_failure:
  "promise_outcome (snd (start generate transport self a)) =
     promise_outcome (snd (start generate TransportOk self a))
   \<and> start generate_ok (TransportFailed ''Failed'') new_ThaliNotificationServer (Array [k1]) =
       (\<lparr>firstStartCall = False, preambleAndBeacons = Some ''beacons'',
         registeredHandlers = 1, advertisingCalls = 1\<rparr>,
        [Resolve, Reject (Err ''Failed'')])
   \<and> promise_outcome
        (snd (start generate_ok (TransportFailed ''Failed'') new_ThaliNotificationServer
               (Array [k1]))) = Some Resolve"
proof -
  have e: "start generate_ok (TransportFailed ''Failed'') new_ThaliNotificationServer (Array [k1]) =
       (\<lparr>firstStartCall = False, preambleAndBeacons = Some ''beacons'',
         registeredHandlers = 1, advertisingCalls = 1\<rparr>,
        [Resolve, Reject (Err ''Failed'')])"
    by (simp add: start_def start_finish_def generate_ok_def k1_def bad_public_key_def
        typeof_def key_length_def new_ThaliNotificationServer_def)
  show ?thesis
    using start_outcome_any_transport [of generate transport self a TransportOk]
    by (simp add: e) (simp add: promise_outcome_def)
qed

lemma bad_key_not_well_formed: "0 < keyLength \<Longrightarrow> bad_public_key k \<Longrightarrow> \<not> well_formed_key keyLength k"
  by (cases k) (auto simp add: bad_public_key_def well_formed_key_def typeof_def key_length_def)

lemma generate_rejects_bad_key:
  assumes "0 < keyLength" and "k \<in> set keys" and "bad_public_key k"
  shows "generatePreambleAndBeacons keyLength encode keys = Inl ''InvalidKeyError''"
proof -
  from assms have "\<not> list_all (well_formed_key keyLength) keys"
    by (auto simp add: list_all_iff dest: bad_key_not_well_formed)
  then show ?thesis by (simp add: generatePreambleAndBeacons_def)
qed

text \<open>
  C2. With the generator of the spec, for keys of a positive length: \<^verbatim>\<open>start\<close> on an
  array holding a key that is not an object or has length 0 rejects with
  \<open>bad public keys\<close> and leaves the server object as it was, so a GET on the beacon path
  is answered as before the call.
\<close>

theorem start_malformed_key_rejects:
  assumes "0 < keyLength" and "k \<in> set keys" and "bad_public_key k"
  shows "promise_outcome
           (snd (start (generatePreambleAndBeacons keyLength encode) transport self (Array keys))) =
         Some (Reject (Err ''bad public keys''))
     \<and> fst (start (generatePreambleAndBeacons keyLength encode) transport self (Array keys)) = self
     \<and> GET_NotificationBeacons
         (fst (start (generatePreambleAndBeacons keyLength encode) transport self (Array keys))) =
       GET_NotificationBeacons self"
proof -
  from assms(2) have ne: "keys \<noteq> []" by auto
  from assms(2,3) have "filter bad_public_key keys \<noteq> []"
    by (auto simp add: filter_empty_conv)
  then obtain b bs where f: "filter bad_public_key keys = b # bs"
    by (cases "filter bad_public_key keys") auto
  have s: "start (generatePreambleAndBeacons keyLength encode) transport self (Array keys) =
      (self, map (\<lambda>k. Reject (Err ''bad public keys'')) (filter bad_public_key keys) @
             [Reject (Err ''InvalidKeyError'')])"
    using ne by (simp add: start_def generate_rejects_bad_key [OF assms])
  show ?thesis by (simp add: s f promise_outcome_def)
qed

theorem start_malformed_key_rejects_witness:
  "(0::nat) < 2 \<and> KeyBuffer [] \<in> set [k1, KeyBuffer []] \<and> bad_public_key (KeyBuffer [])
   \<and> start example_generate TransportOk advertising_server (Array [k1, KeyBuffer []]) =
       (advertising_server, [Reject (Err ''bad public keys''), Reject (Err ''InvalidKeyError'')])
   \<and> promise_outcome
       (snd (start example_generate TransportOk advertising_server (Array [k1, KeyBuffer []]))) =
       Some (Reject (Err ''bad public keys''))
   \<and> GET_NotificationBeacons
       (fst (start example_generate TransportOk advertising_server (Array [k1, KeyBuffer []]))) =
       Some \<lparr>status = 200,
             headers = [(''Content-Type'', ''application/octet-stream''),
                        (''Cache-Control'', ''no-cache'')],
             body = ''old beacons''\<rparr>"
proof -
  have h1: "(0::nat) < 2" by simp
  have h2: "KeyBuffer [] \<in> set [k1, KeyBuffer []]" by simp
  have h3: "bad_public_key (KeyBuffer [])"
    by (simp add: bad_public_key_def typeof_def key_length_def)
  have e: "start example_generate TransportOk advertising_server (Array [k1, KeyBuffer []]) =
       (advertising_server, [Reject (Err ''bad public keys''), Reject (Err ''InvalidKeyError'')])"
    by (simp add: start_def example_generate_def generatePreambleAndBeacons_def
        well_formed_key_def k1_def bad_public_key_def typeof_def key_length_def)
  have g: "GET_NotificationBeacons advertising_server =
       Some \<lparr>status = 200,
             headers = [(''Content-Type'', ''application/octet-stream''),
                        (''Cache-Control'', ''no-cache'')],
             body = ''old beacons''\<rparr>"
    by (simp add: GET_NotificationBeacons_def getBeaconNotifications_def advertising_server_def)
  from start_malformed_key_rejects [OF h1 h2 h3, of "\<lambda>keys. ''beacons''" TransportOk advertising_server]
  show ?thesis
    using h1 h2 h3 e g by (simp add: example_generate_def)
qed

text \<open>
  C7 as stated fails: after \<^verbatim>\<open>start([k1])\<close> on a new server, a second \<^verbatim>\<open>start([k1])\<close>
  resolves and calls \<^verbatim>\<open>startUpdateAdvertisingAndListening\<close> although neither the old nor
  the new beacon state is null.
\<close>

theorem refresh_without_transition:
  "\<not> (advertisingCalls
         (fst (start generate_ok TransportOk
                (fst (start generate_ok TransportOk new_ThaliNotificationServer (Array [k1])))
                (Array [k1]))) =
        advertisingCalls
          (fst (start generate_ok TransportOk new_ThaliNotificationServer (Array [k1]))) + 1
      \<longleftrightarrow>
        (preambleAndBeacons
           (fst (start generate_ok TransportOk new_ThaliNotificationServer (Array [k1]))) = None)
        \<noteq> (preambleAndBeacons
             (fst (start generate_ok TransportOk
                    (fst (start generate_ok TransportOk new_ThaliNotificationServer
                           (Array [k1])))
                    (Array [k1]))) = None))
   \<and> promise_outcome
        (snd (start generate_ok TransportOk
               (fst (start generate_ok TransportOk new_ThaliNotificationServer (Array [k1])))
               (Array [k1]))) = Some Resolve"
  by (simp add: start_def start_finish_def generate_ok_def k1_def bad_public_key_def typeof_def key_length_def
      new_ThaliNotificationServer_def promise_outcome_def)

text \<open>
  C7, as the code has it. A call of \<^verbatim>\<open>start\<close> with an array whose promise resolves
  calls \<^verbatim>\<open>startUpdateAdvertisingAndListening\<close> once when the old or the new beacon state
  is not null, and not at all when both are null. So the second of two calls
  \<^verbatim>\<open>start([])\<close> makes no call, and \<^verbatim>\<open>start([])\<close> after a resolved \<^verbatim>\<open>start\<close> with keys
  makes exactly one.
\<close>

theorem start_refresh_condition:
  assumes "promise_outcome (snd (start generate transport self (Array keys))) = Some Resolve"
  shows "advertisingCalls (fst (start generate transport self (Array keys))) =
       advertisingCalls self +
         (if preambleAndBeacons self \<noteq> None
             \<or> preambleAndBeacons (fst (start generate transport self (Array keys))) \<noteq> None
          then 1 else 0)
     \<and> advertisingCalls
         (fst (start generate transport' (fst (start generate transport self (Array []))) (Array []))) =
       advertisingCalls (fst (start generate transport self (Array [])))
     \<and> (keys \<noteq> [] \<longrightarrow>
         advertisingCalls
           (fst (start generate transport' (fst (start generate transport self (Array keys)))
                  (Array []))) =
         advertisingCalls (fst (start generate transport self (Array keys))) + 1)"
proof -
  have 2: "advertisingCalls
         (fst (start generate transport' (fst (start generate transport self (Array []))) (Array []))) =
       advertisingCalls (fst (start generate transport self (Array [])))"
    by (simp add: start_def start_finish_def Let_def)
  show ?thesis
  proof (cases "keys = []")
    case True
    then show ?thesis using 2 by (simp add: start_def start_finish_def Let_def)
  next
    case False
    show ?thesis
    proof (cases "generate keys")
      case (Inl err)
      with False assms have False
        by (cases "filter bad_public_key keys")
           (simp_all add: start_def Let_def promise_outcome_def)
      then show ?thesis ..
    next
      case (Inr blob)
      with False 2 show ?thesis
        by (simp add: start_def start_finish_def Let_def)
    qed
  qed
qed

theorem start_refresh_condition_witness:
  "promise_outcome (snd (start generate_ok TransportOk advertising_server (Array [k1]))) =
     Some Resolve
   \<and> advertisingCalls (fst (start generate_ok TransportOk advertising_server (Array [k1]))) = 2
   \<and> advertisingCalls
       (fst (start generate_ok TransportOk
              (fst (start generate_ok TransportOk advertising_server (Array [k1])))
              (Array []))) = 3
   \<and> advertisingCalls
       (fst (start generate_ok TransportOk
              (fst (start generate_ok TransportOk new_ThaliNotificationServer (Array [])))
              (Array []))) = 0"
proof -
  have h: "promise_outcome (snd (start generate_ok TransportOk advertising_server (Array [k1]))) =
     Some Resolve"
    by (simp add: start_def start_finish_def generate_ok_def k1_def bad_public_key_def typeof_def key_length_def
      advertising_server_def promise_outcome_def)
  have p: "preambleAndBeacons advertising_server \<noteq> None" by (simp add: advertising_server_def)
  have c: "advertisingCalls advertising_server = 1" by (simp add: advertising_server_def)
  have z: "advertisingCalls (fst (start generate_ok TransportOk new_ThaliNotificationServer (Array []))) = 0"
    by (simp add: start_def start_finish_def new_ThaliNotificationServer_def)
  have h0: "promise_outcome (snd (start generate_ok TransportOk new_ThaliNotificationServer (Array []))) =
     Some Resolve"
    by (simp add: start_def start_finish_def new_ThaliNotificationServer_def promise_outcome_def)
  from start_refresh_condition [OF h, of TransportOk] start_refresh_condition [OF h0, of TransportOk]
  show ?thesis using h p c z by simp
qed

section \<open>Properties of PeerIdentifier\<close>

lemma digit_value_digit_char: "d < 36 \<Longrightarrow> digit_value (digit_char d) = Some d"
  by (simp add: digit_value_def digit_char_def Let_def)

lemma digit_char_not_mark:
  "d < 36 \<Longrightarrow> digit_char d \<noteq> CHR '':'' \<and> digit_char d \<noteq> CHR ''-'' \<and> digit_char d \<noteq> CHR ''+''"
proof -
  assume d: "d < 36"
  have "(of_char (digit_char d) :: nat) \<noteq> 58 \<and> (of_char (digit_char d) :: nat) \<noteq> 45
      \<and> (of_char (digit_char d) :: nat) \<noteq> 43"
    using d by (simp add: digit_char_def)
  moreover have "(of_char CHR '':'' :: nat) = 58" "(of_char CHR ''-'' :: nat) = 45"
    "(of_char CHR ''+'' :: nat) = 43"
    by simp_all
  ultimately show ?thesis by metis
qed

lemma parse_digits_append:
  "parse_digits r acc (xs @ ys) =
     (case parse_digits r acc xs of None \<Rightarrow> None | Some a \<Rightarrow> parse_digits r a ys)"
  by (induction xs arbitrary: acc) (simp_all split: option.split)

lemma parse_digits_digits_radix:
  assumes "2 \<le> r" and "r \<le> 36"
  shows "parse_digits r 0 (digits_radix r n) = Some n"
  using assms
proof (induction r n rule: digits_radix.induct)
  case (1 r n)
  show ?case
  proof (cases "n < r")
    case True
    with "1.prems" have "n < 36" by linarith
    then have "digit_value (digit_char n) = Some n"
      by (rule digit_value_digit_char)
    with True show ?thesis
      by (simp add: digits_radix.simps [of r n])
  next
    case False
    with "1.prems" have d: "digits_radix r n = digits_radix r (n div r) @ [digit_char (n mod r)]"
      by (simp add: digits_radix.simps [of r n])
    from False "1.prems" have ih: "parse_digits r 0 (digits_radix r (n div r)) = Some (n div r)"
      by (intro "1.IH") simp_all
    from "1.prems" have m: "n mod r < r" by simp
    with "1.prems" have "n mod r < 36" by linarith
    then have "digit_value (digit_char (n mod r)) = Some (n mod r)"
      by (rule digit_value_digit_char)
    with m show ?thesis
      by (simp add: d parse_digits_append ih)
  qed
qed

lemma digits_radix_not_Nil: "digits_radix r n \<noteq> []"
  by (simp add: digits_radix.simps [of r n])

lemma digits_radix_chars:
  assumes "2 \<le> r"
  shows "c \<in> set (digits_radix r n) \<Longrightarrow> \<exists>d < r. c = digit_char d"
  using assms
proof (induction r n rule: digits_radix.induct)
  case (1 r n)
  show ?case
  proof (cases "n < r")
    case True
    with "1.prems" show ?thesis
      by (auto simp add: digits_radix.simps [of r n])
  next
    case False
    with "1.prems" have d: "digits_radix r n = digits_radix r (n div r) @ [digit_char (n mod r)]"
      by (simp add: digits_radix.simps [of r n])
    from "1.prems"(1) have "c \<in> set (digits_radix r (n div r)) \<or> c = digit_char (n mod r)"
      by (auto simp add: d)
    then show ?thesis
    proof
      assume "c \<in> set (digits_radix r (n div r))"
      with False "1.prems" show ?thesis by (intro "1.IH") simp_all
    next
      assume "c = digit_char (n mod r)"
      moreover from "1.prems" have "n mod r < r" by simp
      ultimately show ?thesis by blast
    qed
  qed
qed

lemma hex_digits_no_mark:
  assumes "c \<in> set (digits_radix 16 n)"
  shows "c \<noteq> CHR '':'' \<and> c \<noteq> CHR ''-'' \<and> c \<noteq> CHR ''+''"
proof -
  from digits_radix_chars [OF _ assms] obtain d where "d < 16" "c = digit_char d" by auto
  then show ?thesis using digit_char_not_mark [of d] by simp
qed

lemma split_loop_run:
  "\<forall>c \<in> set xs. \<not> isSeparator c \<Longrightarrow>
     split_loop isSeparator cur (xs @ rest) = split_loop isSeparator (cur @ xs) rest"
  by (induction xs arbitrary: cur) simp_all

lemma split_two:
  assumes "a \<noteq> []" and "b \<noteq> []" and "\<forall>c \<in> set a. \<not> isSeparator c"
    and "\<forall>c \<in> set b. \<not> isSeparator c" and "isSeparator s"
  shows "split isSeparator (a @ s # b) = [a, b]"
proof -
  have "split isSeparator (a @ s # b) = split_loop isSeparator a (s # b)"
    using split_loop_run [OF assms(3), of "[]" "s # b"] by (simp add: split_def)
  also have "\<dots> = a # split_loop isSeparator [] (b @ [])"
    using assms(1,5) by simp
  also have "split_loop isSeparator [] (b @ []) = split_loop isSeparator b []"
    using split_loop_run [OF assms(4), of "[]" "[]"] by simp
  finally show ?thesis using assms(2) by simp
qed

lemma Int_radix_hex:
  assumes "0 \<le> g" and "g \<le> Int_max"
  shows "Int_radix (digits_radix 16 (nat g)) 16 = Some g"
proof -
  obtain c cs where d: "digits_radix 16 (nat g) = c # cs"
    using digits_radix_not_Nil [of 16 "nat g"] by (cases "digits_radix 16 (nat g)") auto
  then have "c \<in> set (digits_radix 16 (nat g))" by simp
  from hex_digits_no_mark [OF this] have c: "c \<noteq> CHR ''-''" "c \<noteq> CHR ''+''" by simp_all
  have "parse_magnitude 16 (c # cs) = Some (nat g)"
    using parse_digits_digits_radix [of 16 "nat g"] by (simp add: parse_magnitude_def d)
  with assms c show ?thesis by (simp add: Int_radix_def d)
qed

lemma digit_value_examples: "digit_value CHR ''7'' = Some 7" "digit_value CHR ''f'' = Some 15"
  by (simp_all add: digit_value_def)

lemma Int_max_hex: "Int_radix ''7fffffffffffffff'' 16 = Some Int_max"
  by (simp add: Int_radix_def parse_magnitude_def digit_value_examples Int_max_def)

lemma stringValue_example: "stringValue \<lparr>peer_uuid = ''ab'', generation = 255\<rparr> = ''ab:ff''"
  by code_simp

lemma empty_uuid_not_parsed:
  "init_stringValue (stringValue \<lparr>peer_uuid = [], generation = 0\<rparr>) = Inl WrongDataFormat"
  by code_simp

lemma Int_max_parsed:
  "init_stringValue ''A:7fffffffffffffff'' = Inr \<lparr>peer_uuid = ''A'', generation = Int_max\<rparr>"
  by (simp add: init_stringValue_def split_def Int_max_hex)

text \<open>
  C9 as stated fails in two places. The identifier with an empty uuid and generation 0
  is written \<open>:0\<close>, which splits into one part only and is refused. The identifier
  parsed from \<open>A:7fffffffffffffff\<close> has the generation \<open>Int_max\<close>, and
  \<^verbatim>\<open>nextGenerationPeer\<close> on it overflows.
\<close>

theorem peerIdentifier_round_trip_fails:
  "CHR '':'' \<notin> set (peer_uuid \<lparr>peer_uuid = [], generation = 0\<rparr>)
   \<and> 0 \<le> generation \<lparr>peer_uuid = [], generation = 0\<rparr>
   \<and> init_stringValue (stringValue \<lparr>peer_uuid = [], generation = 0\<rparr>) = Inl WrongDataFormat
   \<and> init_stringValue ''A:7fffffffffffffff'' = Inr \<lparr>peer_uuid = ''A'', generation = Int_max\<rparr>
   \<and> 0 \<le> Int_max
   \<and> nextGenerationPeer \<lparr>peer_uuid = ''A'', generation = Int_max\<rparr> = None"
  by (simp add: empty_uuid_not_parsed Int_max_parsed nextGenerationPeer_def)
     (simp add: Int_max_def)

text \<open>
  C9, as the code has it. For an identifier whose uuid is not empty and holds no colon
  and whose generation is between 0 and \<open>Int_max\<close>: \<^verbatim>\<open>stringValue\<close> is the uuid, a colon
  and the hexadecimal digits of the generation; \<^verbatim>\<open>init(stringValue:)\<close> on that string
  gives the identifier back; and when the generation is below \<open>Int_max\<close>,
  \<^verbatim>\<open>nextGenerationPeer\<close> returns the same uuid with the generation one greater.
\<close>

theorem peerIdentifier_round_trip:
  assumes "peer_uuid p \<noteq> []" and "CHR '':'' \<notin> set (peer_uuid p)"
    and "0 \<le> generation p" and "generation p \<le> Int_max"
  shows "stringValue p = peer_uuid p @ '':'' @ digits_radix 16 (nat (generation p))
     \<and> init_stringValue (stringValue p) = Inr p
     \<and> (generation p < Int_max \<longrightarrow>
          nextGenerationPeer p =
            Some \<lparr>peer_uuid = peer_uuid p, generation = generation p + 1\<rparr>)"
proof -
  let ?hex = "digits_radix 16 (nat (generation p))"
  have s: "stringValue p = peer_uuid p @ '':'' @ ?hex"
    using assms(3) by (simp add: stringValue_def String_radix_def)
  have "split (\<lambda>c. c = CHR '':'') (peer_uuid p @ CHR '':'' # ?hex) = [peer_uuid p, ?hex]"
    using assms(1,2) hex_digits_no_mark [of _ "nat (generation p)"]
    by (intro split_two) (auto simp add: digits_radix_not_Nil)
  then have "init_stringValue (stringValue p) = Inr p"
    by (simp add: init_stringValue_def s Int_radix_hex [OF assms(3,4)])
  moreover have "nextGenerationPeer p =
      Some \<lparr>peer_uuid = peer_uuid p, generation = generation p + 1\<rparr>"
    if "generation p < Int_max"
    using that by (simp add: nextGenerationPeer_def)
  ultimately show ?thesis using s by blast
qed

theorem peerIdentifier_round_trip_witness:
  "stringValue \<lparr>peer_uuid = ''ab'', generation = 255\<rparr> = ''ab:ff''
   \<and> init_stringValue ''ab:ff'' = Inr \<lparr>peer_uuid = ''ab'', generation = 255\<rparr>
   \<and> nextGenerationPeer \<lparr>peer_uuid = ''ab'', generation = 255\<rparr> =
       Some \<lparr>peer_uuid = ''ab'', generation = 256\<rparr>"
proof -
  have h: "peer_uuid \<lparr>peer_uuid = ''ab'', generation = 255\<rparr> \<noteq> []"
    "CHR '':'' \<notin> set (peer_uuid \<lparr>peer_uuid = ''ab'', generation = 255\<rparr>)"
    "0 \<le> generation \<lparr>peer_uuid = ''ab'', generation = 255\<rparr>"
    "generation \<lparr>peer_uuid = ''ab'', generation = 255\<rparr> \<le> Int_max"
    by (simp_all add: Int_max_def)
  have lt: "generation \<lparr>peer_uuid = ''ab'', generation = 255\<rparr> < Int_max"
    by (simp add: Int_max_def)
  from peerIdentifier_round_trip [OF h] lt
  have "init_stringValue (stringValue \<lparr>peer_uuid = ''ab'', generation = 255\<rparr>) =
      Inr \<lparr>peer_uuid = ''ab'', generation = 255\<rparr>"
    and "nextGenerationPeer \<lparr>peer_uuid = ''ab'', generation = 255\<rparr> =
      Some \<lparr>peer_uuid = peer_uuid \<lparr>peer_uuid = ''ab'', generation = 255\<rparr>,
            generation = generation \<lparr>peer_uuid = ''ab'', generation = 255\<rparr> + 1\<rparr>"
    by blast+
  then show ?thesis by (simp add: stringValue_example)
qed

end
